theory Spec2Isabelle
  imports Complex_Main "HOL-Library.Stream"
begin

section \<open>Data model of \<open>src/commands/upload.ts\<close>\<close>

type_synonym buffer = string

text \<open>
  A JavaScript \<open>number\<close>: an IEEE double is a rational, an infinity or NaN. The workflow only
  compares such a value with \<open>1\<close>, and that comparison is exact on the double's value.
\<close>

datatype number = Num rat | NaN | PosInfinity | NegInfinity

text \<open>The three response shapes; \<open>None\<close> in \<open>error\<close> is \<open>null\<close>, \<open>None\<close> in \<open>progress\<close>
  is a field that is absent from the JSON (\<open>undefined\<close> once read).\<close>

record Credentials =
  bucket :: string
  key :: string
  accessKeyId :: string
  secretAccessKey :: string
  sessionToken :: string
  url :: string

record Upload =
  url :: string
  tileset :: string
  name :: string

record UploadProcessing =
  complete :: bool
  tileset :: string
  error :: "string option"
  id' :: string
  name :: string
  modified :: string
  created :: string
  owner :: string
  progress :: "number option"

record ProcessStatus =
  complete :: bool
  tileset :: string
  error :: "string option"
  id' :: string
  name :: string
  modified :: string
  created :: string
  owner :: string
  progress :: "number option"

text \<open>What an axios call resolves to.\<close>

record 'a response =
  status :: int
  statusText :: string
  data :: 'a

text \<open>The constructor options of \<open>AWS.S3\<close> and the parameters of \<open>putObject\<close>.\<close>

record S3Options =
  accessKeyId :: string
  secretAccessKey :: string
  region :: string
  sessionToken :: string

record PutObjectRequest =
  Body :: buffer
  Bucket :: string
  Key :: string

text \<open>
  Exceptions: the three \<open>Error\<close>s the file constructs itself (with the status and status text
  they interpolate), and whatever a collaborator (\<open>fs\<close>, axios, the S3 client) raises.
\<close>

datatype exn =
    External string
  | CouldNotFetchCredentials int string
  | CouldNotStartProcessing int string
  | CouldProcessingStatus int string

text \<open>
  The collaborators of one invocation: what \<open>fs.readFileSync\<close> gives for a path, what
  the two POSTs resolve to (\<open>Inl\<close>: the axios promise rejects), the \<open>err\<close> argument that the
  S3 client hands to the \<open>putObject\<close> callback (\<open>None\<close>: null), and the answers of the
  successive status GETs, in order.
\<close>

record env =
  readFileSync :: "string \<Rightarrow> exn + buffer"
  postCredentials :: "string \<Rightarrow> exn + Credentials response"
  putObject :: "S3Options \<Rightarrow> PutObjectRequest \<Rightarrow> exn option"
  postUpload :: "string \<Rightarrow> Upload \<Rightarrow> exn + UploadProcessing response"
  getStatus :: "(exn + ProcessStatus response) stream"

text \<open>What the workflow does to the outside, in order.\<close>

datatype event =
    ReadFile string
  | PostCredentials string
  | PutObject S3Options PutObjectRequest
  | PostUpload string Upload
  | GetStatus string
  | Delay nat
  | ConsoleError exn

text \<open>
  How a call of \<open>upload\<close> ends: its promise resolves to a number, or an exception escapes
  from a callback that runs outside the \<open>async\<close> function, so that no handler of
  \<open>upload\<close> sees it and the promise \<open>upload\<close> awaits is never settled.
\<close>

datatype outcome = Returned int | Uncaught exn

section \<open>The functions\<close>

definition credentialsUrl :: "string \<Rightarrow> string \<Rightarrow> string" where
  "credentialsUrl username token =
     ''https://api.mapbox.com/uploads/v1/'' @ username @ ''/credentials?access_token='' @ token"

definition uploadUrl :: "string \<Rightarrow> string \<Rightarrow> string" where
  "uploadUrl username token =
     ''https://api.mapbox.com/uploads/v1/'' @ username @ ''?access_token='' @ token"

definition fileUrl :: "string \<Rightarrow> string \<Rightarrow> string" where
  "fileUrl bucket' key' = ''http://'' @ bucket' @ ''.s3.amazonaws.com/'' @ key'"

definition uploadStatusUrl :: "string \<Rightarrow> string \<Rightarrow> string \<Rightarrow> string" where
  "uploadStatusUrl username uploadId token =
     ''https://api.mapbox.com/uploads/v1/'' @ username @ ''/'' @ uploadId
       @ ''?access_token='' @ token"

text \<open>
  \<open>fetchCredentials\<close>, lines 146-157: the request it issues and what it returns or throws.
\<close>

definition fetchCredentials :: "env \<Rightarrow> string \<Rightarrow> string \<Rightarrow> event list \<times> (exn + Credentials)" where
  "fetchCredentials e username token =
     (let url' = credentialsUrl username token in
      ([PostCredentials url'],
       case postCredentials e url' of
         Inl ex \<Rightarrow> Inl ex
       | Inr credentials \<Rightarrow>
           if status credentials \<noteq> 200
           then Inl (CouldNotFetchCredentials (status credentials) (statusText credentials))
           else Inr (data credentials)))"

text \<open>
  \<open>uploadToS3\<close>, lines 124-144. The promise is built from \<open>resolve\<close> alone and the
  client runs the callback once the request has completed, from the event loop: with a null
  \<open>err\<close> the callback resolves the promise (\<open>Inr ()\<close>); otherwise its \<open>throw err\<close> leaves
  the callback with nothing to reject the promise, which stays pending (\<open>Inl err\<close>).
\<close>

definition uploadToS3 :: "env \<Rightarrow> Credentials \<Rightarrow> buffer \<Rightarrow> event list \<times> (exn + unit)" where
  "uploadToS3 e credentials data' =
     (let s3 = \<lparr>S3Options.accessKeyId = Credentials.accessKeyId credentials,
                secretAccessKey = Credentials.secretAccessKey credentials,
                region = ''us-east-1'',
                sessionToken = Credentials.sessionToken credentials\<rparr>;
          params = \<lparr>Body = data', Bucket = bucket credentials, Key = key credentials\<rparr>
      in ([PutObject s3 params],
          case putObject e s3 params of
            Some err \<Rightarrow> Inl err
          | None \<Rightarrow> Inr ()))"

text \<open>\<open>startUpload\<close>, lines 159-186.\<close>

definition startUpload ::
  "env \<Rightarrow> string \<Rightarrow> string \<Rightarrow> string \<Rightarrow> string \<Rightarrow> string \<Rightarrow> string
     \<Rightarrow> event list \<times> (exn + UploadProcessing)" where
  "startUpload e username slug name' bucket' key' token =
     (let upload = \<lparr>Upload.url = fileUrl bucket' key',
                    tileset = username @ ''.'' @ slug,
                    name = name'\<rparr>
      in ([PostUpload (uploadUrl username token) upload],
          case postUpload e (uploadUrl username token) upload of
            Inl ex \<Rightarrow> Inl ex
          | Inr credentials \<Rightarrow>
              if status credentials \<noteq> 201
              then Inl (CouldNotStartProcessing (status credentials) (statusText credentials))
              else Inr (data credentials)))"

text \<open>\<open>getUploadStatus\<close>, lines 188-208, on the answer \<open>reply\<close> that its GET receives.\<close>

definition getUploadStatus ::
  "(exn + ProcessStatus response) \<Rightarrow> string \<Rightarrow> string \<Rightarrow> string
     \<Rightarrow> event list \<times> (exn + ProcessStatus)" where
  "getUploadStatus reply username uploadId token =
     ([GetStatus (uploadStatusUrl username uploadId token)],
      case reply of
        Inl ex \<Rightarrow> Inl ex
      | Inr uploadStatus \<Rightarrow>
          if status uploadStatus \<noteq> 200
          then Inl (CouldProcessingStatus (status uploadStatus) (statusText uploadStatus))
          else Inr (data uploadStatus))"

text \<open>JavaScript's \<open>x < 1\<close> on a number, and the truth value of a \<open>string | null\<close>.\<close>

fun lessThanOne :: "number \<Rightarrow> bool" where
  "lessThanOne (Num q) = (q < 1)"
| "lessThanOne NaN = False"
| "lessThanOne PosInfinity = False"
| "lessThanOne NegInfinity = True"

fun truthy :: "string option \<Rightarrow> bool" where
  "truthy None = False"
| "truthy (Some s) = (s \<noteq> [])"

text \<open>The loop condition of line 98, \<open>progress !== undefined && progress < 1\<close>.\<close>

fun keepPolling :: "number option \<Rightarrow> bool" where
  "keepPolling None = False"
| "keepPolling (Some p) = lessThanOne p"

text \<open>The \<open>catch\<close> block, lines 118-121.\<close>

definition caught :: "event list \<Rightarrow> exn \<Rightarrow> outcome \<times> event list" where
  "caught journal ex = (Returned (- 1), journal @ [ConsoleError ex])"

text \<open>
  The polling loop, lines 98-111, from the test of its condition on. It has no bound: a run
  that never leaves the loop is \<open>None\<close>. \<open>replies\<close> are the answers still to come and
  \<open>journal\<close> is what the run has done so far.
\<close>

partial_function (option) pollLoop ::
  "(exn + ProcessStatus response) stream \<Rightarrow> string \<Rightarrow> string \<Rightarrow> string
     \<Rightarrow> number option \<Rightarrow> event list \<Rightarrow> (outcome \<times> event list) option" where
  "pollLoop replies username id'' token progress' journal =
     (if keepPolling progress' then
        (case getUploadStatus (shd replies) username id'' token of
           (evs, Inl ex) \<Rightarrow> Some (caught (journal @ evs) ex)
         | (evs, Inr processStatus) \<Rightarrow>
             if truthy (ProcessStatus.error processStatus)
             then Some (Returned (- 1), journal @ evs)
             else pollLoop (stl replies) username id'' token
                    (ProcessStatus.progress processStatus) (journal @ evs @ [Delay 1000]))
      else Some (Returned 0, journal))"

text \<open>
  Lines 68-92 of \<open>upload\<close>: reading the file, the credentials, the storage write and the
  start of the processing, under the \<open>try\<close>. The result is the journal and either the way the
  call has ended or the job that was started.
\<close>

definition uploadAndStart ::
  "env \<Rightarrow> string \<Rightarrow> string \<Rightarrow> string \<Rightarrow> string \<Rightarrow> string
     \<Rightarrow> (outcome \<times> event list) + (UploadProcessing \<times> event list)" where
  "uploadAndStart e source name' slug username token =
     (case readFileSync e source of
        Inl ex \<Rightarrow> Inl (caught [ReadFile source] ex)
      | Inr file \<Rightarrow>
          (case fetchCredentials e username token of
             (evs1, Inl ex) \<Rightarrow> Inl (caught ([ReadFile source] @ evs1) ex)
           | (evs1, Inr credentials) \<Rightarrow>
               (case uploadToS3 e credentials file of
                  (evs2, Inl err) \<Rightarrow> Inl (Uncaught err, [ReadFile source] @ evs1 @ evs2)
                | (evs2, Inr _) \<Rightarrow>
                    (case startUpload e username slug name' (bucket credentials)
                            (key credentials) token of
                       (evs3, Inl ex) \<Rightarrow>
                         Inl (caught ([ReadFile source] @ evs1 @ evs2 @ evs3) ex)
                     | (evs3, Inr processing) \<Rightarrow>
                         Inr (processing, [ReadFile source] @ evs1 @ evs2 @ evs3)))))"

text \<open>\<open>upload\<close>, lines 60-122.\<close>

definition upload ::
  "env \<Rightarrow> string \<Rightarrow> string \<Rightarrow> string \<Rightarrow> string \<Rightarrow> string \<Rightarrow> bool
     \<Rightarrow> (outcome \<times> event list) option" where
  "upload e source name' slug username token awaitProcessing =
     (case uploadAndStart e source name' slug username token of
        Inl ended \<Rightarrow> Some ended
      | Inr (processing, journal) \<Rightarrow>
          if awaitProcessing
          then pollLoop (getStatus e) username (UploadProcessing.id' processing) token
                 (Some (Num 0)) journal
          else Some (Returned 0, journal))"


section \<open>Vocabulary of the statements\<close>

type_synonym reply = "exn + ProcessStatus response"

text \<open>
  What one turn of the loop reads of the answer to its GET: the exception that
  \<open>getUploadStatus\<close> throws, or the \<open>error\<close> and \<open>progress\<close> fields it returns.
\<close>

definition readOf :: "reply \<Rightarrow> exn + (string option \<times> number option)" where
  "readOf x =
     (case x of
        Inl ex \<Rightarrow> Inl ex
      | Inr r \<Rightarrow>
          if status r \<noteq> 200 then Inl (CouldProcessingStatus (status r) (statusText r))
          else Inr (ProcessStatus.error (data r), ProcessStatus.progress (data r)))"

text \<open>An answer after which the loop goes round again: status 200, no error, progress below one.\<close>

fun continuing :: "reply \<Rightarrow> bool" where
  "continuing (Inl ex) = False"
| "continuing (Inr r) =
     (status r = 200 \<and> \<not> truthy (ProcessStatus.error (data r))
        \<and> keepPolling (ProcessStatus.progress (data r)))"

text \<open>The events of \<open>n\<close> complete turns of the loop.\<close>

definition rounds :: "string \<Rightarrow> nat \<Rightarrow> event list" where
  "rounds url' n = concat (replicate n [GetStatus url', Delay 1000])"

fun isStage :: "event \<Rightarrow> bool" where
  "isStage (PostCredentials a) = True"
| "isStage (PutObject a b) = True"
| "isStage (PostUpload a b) = True"
| "isStage ev = False"

fun isPutObject :: "event \<Rightarrow> bool" where
  "isPutObject (PutObject a b) = True"
| "isPutObject ev = False"

fun isGetStatus :: "event \<Rightarrow> bool" where
  "isGetStatus (GetStatus a) = True"
| "isGetStatus ev = False"

text \<open>The three stages in their order, or a beginning of it.\<close>

fun stageOrder :: "event list \<Rightarrow> bool" where
  "stageOrder [] = True"
| "stageOrder [PostCredentials a] = True"
| "stageOrder [PostCredentials a, PutObject b c] = True"
| "stageOrder [PostCredentials a, PutObject b c, PostUpload d f] = True"
| "stageOrder evs = False"

definition journalOf ::
  "(outcome \<times> event list) + (UploadProcessing \<times> event list) \<Rightarrow> event list" where
  "journalOf r = (case r of Inl (out, journal) \<Rightarrow> journal | Inr (processing, journal) \<Rightarrow> journal)"

text \<open>An answer with its \<open>complete\<close> field blanked: two answers that differ in nothing else
  have the same image.\<close>

fun forgetComplete :: "reply \<Rightarrow> reply" where
  "forgetComplete (Inl ex) = Inl ex"
| "forgetComplete (Inr r) = Inr (r\<lparr>data := (data r)\<lparr>ProcessStatus.complete := False\<rparr>\<rparr>)"

subsection \<open>A concrete service\<close>

definition sampleCredentials :: Credentials where
  "sampleCredentials =
     \<lparr>bucket = ''tilestream-tilesets-production'', key = ''_pending/roads'',
      accessKeyId = ''AKIA'', secretAccessKey = ''secret'', sessionToken = ''session'',
      url = ''https://tilestream-tilesets-production.s3.amazonaws.com/_pending/roads''\<rparr>"

definition sampleProcessing :: UploadProcessing where
  "sampleProcessing =
     \<lparr>UploadProcessing.complete = False, UploadProcessing.tileset = ''ann.roads'',
      UploadProcessing.error = None, UploadProcessing.id' = ''job1'',
      UploadProcessing.name = ''Roads'', UploadProcessing.modified = ''2020-01-01'',
      UploadProcessing.created = ''2020-01-01'', UploadProcessing.owner = ''ann'',
      UploadProcessing.progress = Some (Num 0)\<rparr>"

definition sampleStatus ::
  "bool \<Rightarrow> string option \<Rightarrow> number option \<Rightarrow> ProcessStatus response" where
  "sampleStatus c er pr =
     \<lparr>status = 200, statusText = ''OK'',
      data = \<lparr>complete = c, tileset = ''ann.roads'', error = er, id' = ''job1'',
              name = ''Roads'', modified = ''2020-01-01'', created = ''2020-01-01'',
              owner = ''ann'', progress = pr\<rparr>\<rparr>"

text \<open>A service that answers the credentials request with status \<open>cs\<close>, the storage write
  with \<open>err\<close>, the start request with status \<open>us\<close> and the status queries with
  \<open>replies\<close>.\<close>

definition sampleEnv :: "int \<Rightarrow> exn option \<Rightarrow> int \<Rightarrow> reply stream \<Rightarrow> env" where
  "sampleEnv cs err us replies =
     \<lparr>readFileSync = (\<lambda>path. Inr ''tiles''),
      postCredentials = (\<lambda>u. Inr \<lparr>status = cs, statusText = ''cs'', data = sampleCredentials\<rparr>),
      putObject = (\<lambda>opts params. err),
      postUpload = (\<lambda>u body. Inr \<lparr>status = us, statusText = ''us'', data = sampleProcessing\<rparr>),
      getStatus = replies\<rparr>"

definition sampleUpload :: Upload where
  "sampleUpload =
     \<lparr>url = ''http://tilestream-tilesets-production.s3.amazonaws.com/_pending/roads'',
      tileset = ''ann.roads'', name = ''Roads''\<rparr>"

definition sampleJournal :: "event list" where
  "sampleJournal =
     [ReadFile ''roads.mbtiles'',
      PostCredentials (credentialsUrl ''ann'' ''tk''),
      PutObject \<lparr>accessKeyId = ''AKIA'', secretAccessKey = ''secret'', region = ''us-east-1'',
                  sessionToken = ''session''\<rparr>
        \<lparr>Body = ''tiles'', Bucket = ''tilestream-tilesets-production'', Key = ''_pending/roads''\<rparr>,
      PostUpload (uploadUrl ''ann'' ''tk'') sampleUpload]"

section \<open>The polling loop\<close>

lemma pollLoop_done: "\<not> keepPolling p \<Longrightarrow> pollLoop s u i t p j = Some (Returned 0, j)"
  by (subst pollLoop.simps) simp

lemma pollLoop_query:
  "keepPolling p \<Longrightarrow>
   pollLoop (x ## s) u i t p j =
     (case x of
        Inl ex \<Rightarrow> Some (caught (j @ [GetStatus (uploadStatusUrl u i t)]) ex)
      | Inr r \<Rightarrow>
          if status r \<noteq> 200
          then Some (caught (j @ [GetStatus (uploadStatusUrl u i t)])
                 (CouldProcessingStatus (status r) (statusText r)))
          else if truthy (ProcessStatus.error (data r))
          then Some (Returned (- 1), j @ [GetStatus (uploadStatusUrl u i t)])
          else pollLoop s u i t (ProcessStatus.progress (data r))
                 (j @ [GetStatus (uploadStatusUrl u i t), Delay 1000]))"
  by (subst pollLoop.simps) (simp add: getUploadStatus_def split: sum.splits)

lemma rounds_Suc: "rounds a (Suc n) = [GetStatus a, Delay 1000] @ rounds a n"
  by (simp add: rounds_def)

lemma rounds_snoc: "rounds a n @ [GetStatus a, Delay 1000] = rounds a (Suc n)"
  by (induction n) (simp_all add: rounds_def)

lemma pollLoop_continuing:
  "\<forall>x\<in>set before. continuing x \<Longrightarrow> keepPolling p \<Longrightarrow>
   \<exists>p'. keepPolling p' \<and>
     pollLoop (before @- s) u i t p j =
       pollLoop s u i t p' (j @ rounds (uploadStatusUrl u i t) (length before))"
proof (induction before arbitrary: p j)
  case Nil
  then show ?case by (auto simp: rounds_def)
next
  case (Cons x before)
  from Cons.prems obtain r where x: "x = Inr r" and r: "status r = 200"
      "\<not> truthy (ProcessStatus.error (data r))" "keepPolling (ProcessStatus.progress (data r))"
    by (cases x) auto
  from Cons.IH [of "ProcessStatus.progress (data r)" "j @ [GetStatus (uploadStatusUrl u i t), Delay 1000]"] Cons.prems r
  obtain p' where "keepPolling p'"
    "pollLoop (before @- s) u i t (ProcessStatus.progress (data r)) (j @ [GetStatus (uploadStatusUrl u i t), Delay 1000]) =
       pollLoop s u i t p' ((j @ [GetStatus (uploadStatusUrl u i t), Delay 1000]) @ rounds (uploadStatusUrl u i t) (length before))"
    by auto
  with x r Cons.prems(2) show ?case
    by (auto simp: pollLoop_query rounds_Suc intro!: exI [of _ p'])
qed


lemma body_cases:
  assumes "(if keepPolling p
      then case getUploadStatus x u i t of
           (evs, Inl ex) \<Rightarrow> Some (caught (j @ evs) ex)
           | (evs, Inr processStatus) \<Rightarrow>
               if truthy (ProcessStatus.error processStatus)
               then Some (Returned (- 1), j @ evs)
               else rec (ProcessStatus.progress processStatus) (j @ evs @ [Delay 1000])
      else Some (Returned 0, j)) = Some y"
  obtains
    (Done) "\<not> keepPolling p" "y = (Returned 0, j)"
  | (Threw) ex where "keepPolling p" "readOf x = Inl ex"
      "y = caught (j @ [GetStatus (uploadStatusUrl u i t)]) ex"
  | (Failed) er pr where "keepPolling p" "readOf x = Inr (er, pr)" "truthy er"
      "y = (Returned (- 1), j @ [GetStatus (uploadStatusUrl u i t)])"
  | (Again) er pr where "keepPolling p" "readOf x = Inr (er, pr)" "\<not> truthy er"
      "rec pr (j @ [GetStatus (uploadStatusUrl u i t), Delay 1000]) = Some y"
  using assms
  by (auto simp: getUploadStatus_def readOf_def split: if_splits sum.splits)

lemma pollLoop_stages:
  assumes "pollLoop s u i t p j = Some y"
  shows "filter isStage (snd y) = filter isStage j"
proof (rule pollLoop.raw_induct
    [where P = "\<lambda>s u i t p j y. filter isStage (snd y) = filter isStage j", OF _ assms])
  fix f replies username id'' token progress' journal y
  assume IH: "\<And>replies username id'' token progress' journal y.
      f replies username id'' token progress' journal = Some y \<Longrightarrow>
      filter isStage (snd y) = filter isStage journal"
    and step: "(if keepPolling progress'
      then case getUploadStatus (shd replies) username id'' token of
           (evs, Inl ex) \<Rightarrow> Some (caught (journal @ evs) ex)
           | (evs, Inr processStatus) \<Rightarrow>
               if truthy (ProcessStatus.error processStatus)
               then Some (Returned (- 1), journal @ evs)
               else f (stl replies) username id'' token
                     (ProcessStatus.progress processStatus)
                     (journal @ evs @ [Delay 1000])
      else Some (Returned 0, journal)) = Some y"
  from step show "filter isStage (snd y) = filter isStage journal"
  proof (cases rule: body_cases)
    case Again
    from IH [OF Again(4)] show ?thesis by simp
  qed (simp_all add: caught_def)
qed

lemma forgetComplete_Inr:
  assumes "forgetComplete (Inr r) = forgetComplete (Inr r')"
  shows "status r = status r'" and "statusText r = statusText r'"
    and "ProcessStatus.error (data r) = ProcessStatus.error (data r')"
    and "ProcessStatus.progress (data r) = ProcessStatus.progress (data r')"
proof -
  from assms have eq: "r\<lparr>data := (data r)\<lparr>ProcessStatus.complete := False\<rparr>\<rparr>
      = r'\<lparr>data := (data r')\<lparr>ProcessStatus.complete := False\<rparr>\<rparr>"
    by simp
  from arg_cong [OF eq, of status] show "status r = status r'" by simp
  from arg_cong [OF eq, of statusText] show "statusText r = statusText r'" by simp
  from arg_cong [OF eq, of data] have d: "(data r)\<lparr>ProcessStatus.complete := False\<rparr>
      = (data r')\<lparr>ProcessStatus.complete := False\<rparr>" by simp
  from arg_cong [OF d, of ProcessStatus.error]
  show "ProcessStatus.error (data r) = ProcessStatus.error (data r')" by simp
  from arg_cong [OF d, of ProcessStatus.progress]
  show "ProcessStatus.progress (data r) = ProcessStatus.progress (data r')" by simp
qed

lemma forgetComplete_readOf:
  "forgetComplete x = forgetComplete x' \<Longrightarrow> readOf x = readOf x'"
proof (cases x; cases x')
  fix r r' assume "forgetComplete x = forgetComplete x'" "x = Inr r" "x' = Inr r'"
  then have "forgetComplete (Inr r) = forgetComplete (Inr r')" by simp
  from forgetComplete_Inr [OF this] show "readOf x = readOf x'"
    by (simp add: readOf_def \<open>x = Inr r\<close> \<open>x' = Inr r'\<close>)
qed (simp_all add: readOf_def)

lemma pollLoop_unfold:
  "pollLoop s u i t p j =
     (if keepPolling p then
        (case readOf (shd s) of
           Inl ex \<Rightarrow> Some (caught (j @ [GetStatus (uploadStatusUrl u i t)]) ex)
         | Inr (er, pr) \<Rightarrow>
             if truthy er then Some (Returned (- 1), j @ [GetStatus (uploadStatusUrl u i t)])
             else pollLoop (stl s) u i t pr (j @ [GetStatus (uploadStatusUrl u i t), Delay 1000]))
      else Some (Returned 0, j))"
  by (subst pollLoop.simps) (simp add: getUploadStatus_def readOf_def split: sum.splits)

lemma pollLoop_forget_le:
  assumes "pollLoop s u i t p j = Some y"
  shows "smap forgetComplete s = smap forgetComplete s' \<Longrightarrow> pollLoop s' u i t p j = Some y"
proof -
  have "\<forall>s'. smap forgetComplete s = smap forgetComplete s' \<longrightarrow> pollLoop s' u i t p j = Some y"
  proof (rule pollLoop.raw_induct
    [where P = "\<lambda>s u i t p j y. \<forall>s'. smap forgetComplete s = smap forgetComplete s'
         \<longrightarrow> pollLoop s' u i t p j = Some y", OF _ assms])
    fix f replies username id'' token progress' journal y
    assume IH: "\<And>replies username id'' token progress' journal y.
        f replies username id'' token progress' journal = Some y \<Longrightarrow>
        \<forall>s'. smap forgetComplete replies = smap forgetComplete s'
          \<longrightarrow> pollLoop s' username id'' token progress' journal = Some y"
      and step: "(if keepPolling progress'
        then case getUploadStatus (shd replies) username id'' token of
             (evs, Inl ex) \<Rightarrow> Some (caught (journal @ evs) ex)
             | (evs, Inr processStatus) \<Rightarrow>
                 if truthy (ProcessStatus.error processStatus)
                 then Some (Returned (- 1), journal @ evs)
                 else f (stl replies) username id'' token
                       (ProcessStatus.progress processStatus)
                       (journal @ evs @ [Delay 1000])
        else Some (Returned 0, journal)) = Some y"
    show "\<forall>s'. smap forgetComplete replies = smap forgetComplete s'
          \<longrightarrow> pollLoop s' username id'' token progress' journal = Some y"
    proof (intro allI impI)
      fix s' assume eq: "smap forgetComplete replies = smap forgetComplete s'"
      from arg_cong [OF eq, of shd] have "forgetComplete (shd replies) = forgetComplete (shd s')"
        by simp
      then have h: "readOf (shd s') = readOf (shd replies)"
        by (rule forgetComplete_readOf [symmetric])
      from arg_cong [OF eq, of stl]
      have tl: "smap forgetComplete (stl replies) = smap forgetComplete (stl s')" by simp
      from step show "pollLoop s' username id'' token progress' journal = Some y"
      proof (cases rule: body_cases)
        case (Again er pr)
        from IH [OF Again(4), rule_format, OF tl]
        have "pollLoop (stl s') username id'' token pr
            (journal @ [GetStatus (uploadStatusUrl username id'' token), Delay 1000]) = Some y" .
        with Again(1-3) show ?thesis
          by (subst pollLoop_unfold) (simp add: h)
      next
        case Done
        then show ?thesis by (simp add: pollLoop_done)
      next
        case Threw
        then show ?thesis by (subst pollLoop_unfold) (simp add: h)
      next
        case Failed
        then show ?thesis by (subst pollLoop_unfold) (simp add: h)
      qed
    qed
  qed
  then show "smap forgetComplete s = smap forgetComplete s' \<Longrightarrow> pollLoop s' u i t p j = Some y"
    by blast
qed

lemma pollLoop_forget:
  assumes "smap forgetComplete s = smap forgetComplete s'"
  shows "pollLoop s u i t p j = pollLoop s' u i t p j"
proof (cases "pollLoop s u i t p j")
  case None
  show ?thesis
  proof (cases "pollLoop s' u i t p j")
    case None': None
    with None show ?thesis by simp
  next
    case (Some y)
    from pollLoop_forget_le [OF Some assms [symmetric]] None show ?thesis by simp
  qed
next
  case (Some y)
  from pollLoop_forget_le [OF Some assms] Some show ?thesis by simp
qed


section \<open>The workflow\<close>

lemma upload_polls:
  "uploadAndStart e source nm slug username token = Inr (processing, j) \<Longrightarrow>
   upload e source nm slug username token True =
     pollLoop (getStatus e) username (UploadProcessing.id' processing) token (Some (Num 0)) j"
  by (simp add: upload_def)

lemma upload_stages:
  assumes "upload e source nm slug username token w = Some (out, journal)"
  shows "filter isStage journal
    = filter isStage (journalOf (uploadAndStart e source nm slug username token))"
proof (cases "uploadAndStart e source nm slug username token")
  case (Inl ended)
  with assms show ?thesis by (auto simp: upload_def journalOf_def)
next
  case (Inr started)
  obtain processing j where s: "started = (processing, j)" by (cases started)
  show ?thesis
  proof (cases w)
    case True
    with assms Inr s have
      "pollLoop (getStatus e) username (UploadProcessing.id' processing) token (Some (Num 0)) j
         = Some (out, journal)"
      by (simp add: upload_def)
    from pollLoop_stages [OF this] Inr s show ?thesis by (simp add: journalOf_def)
  next
    case False
    with assms Inr s show ?thesis by (simp add: upload_def journalOf_def)
  qed
qed

text \<open>What must have happened for the start request to be in the journal of lines 68-92.\<close>

lemma PostUpload_issued:
  assumes "PostUpload u body \<in> set (journalOf (uploadAndStart e source nm slug username token))"
  shows "\<exists>file cr.
      readFileSync e source = Inr file
    \<and> postCredentials e (credentialsUrl username token) = Inr cr \<and> status cr = 200
    \<and> putObject e
         \<lparr>accessKeyId = Credentials.accessKeyId (data cr),
          secretAccessKey = Credentials.secretAccessKey (data cr),
          region = ''us-east-1'', sessionToken = Credentials.sessionToken (data cr)\<rparr>
         \<lparr>Body = file, Bucket = bucket (data cr), Key = key (data cr)\<rparr> = None
    \<and> u = uploadUrl username token
    \<and> body = \<lparr>url = fileUrl (bucket (data cr)) (key (data cr)),
               tileset = username @ ''.'' @ slug, name = nm\<rparr>"
  using assms
  by (auto simp: uploadAndStart_def journalOf_def fetchCredentials_def uploadToS3_def
      startUpload_def caught_def Let_def split: sum.splits option.splits if_splits)

lemma sample_reaches_poller:
  "uploadAndStart (sampleEnv 200 None 201 replies) ''roads.mbtiles'' ''Roads'' ''roads'' ''ann'' ''tk''
     = Inr (sampleProcessing, sampleJournal)"
  by (simp add: uploadAndStart_def sampleEnv_def fetchCredentials_def uploadToS3_def
      startUpload_def sampleCredentials_def sampleJournal_def sampleUpload_def fileUrl_def
      Let_def)

lemma uploadAndStart_getStatus:
  "uploadAndStart (e\<lparr>getStatus := s\<rparr>) source nm slug username token
     = uploadAndStart e source nm slug username token"
proof -
  have "fetchCredentials (e\<lparr>getStatus := s\<rparr>) = fetchCredentials e"
    and "uploadToS3 (e\<lparr>getStatus := s\<rparr>) = uploadToS3 e"
    and "startUpload (e\<lparr>getStatus := s\<rparr>) = startUpload e"
    by (simp_all add: fetchCredentials_def uploadToS3_def startUpload_def fun_eq_iff)
  then show ?thesis
    unfolding uploadAndStart_def by (simp cong: sum.case_cong prod.case_cong)
qed

lemma PostUpload_in_upload:
  assumes "upload e source nm slug username token w = Some (out, journal)"
    and "PostUpload u body \<in> set journal"
  shows "PostUpload u body \<in> set (journalOf (uploadAndStart e source nm slug username token))"
proof -
  from assms(2) have "PostUpload u body \<in> set (filter isStage journal)" by simp
  with upload_stages [OF assms(1)] show ?thesis by simp
qed



lemma sample_polls:
  "upload (sampleEnv 200 None 201 replies) ''roads.mbtiles'' ''Roads'' ''roads'' ''ann'' ''tk'' True
     = pollLoop replies ''ann'' ''job1'' ''tk'' (Some (Num 0)) sampleJournal"
proof -
  have "getStatus (sampleEnv 200 None 201 replies) = replies"
    by (simp add: sampleEnv_def)
  moreover have "UploadProcessing.id' sampleProcessing = ''job1''"
    by (simp add: sampleProcessing_def)
  ultimately show ?thesis
    using upload_polls [OF sample_reaches_poller, of replies] by simp
qed

section \<open>The status poller\<close>

text \<open>
  C1, as the code has it. A poll response whose \<open>error\<close> is a non-empty string ends the
  workflow at once, after any number of responses that kept the loop going: \<open>upload\<close> returns
  \<open>-1\<close>, and the journal ends with the query that received that response, so there is no
  further query and no retry. (When that response does not have status 200,
  \<open>getUploadStatus\<close> throws first and the \<open>catch\<close> block reports it; the outcome is the
  same.)
\<close>

theorem poll_error_stops:
  assumes "uploadAndStart e source nm slug username token = Inr (processing, j)"
    and "getStatus e = before @- Inr r ## rest"
    and "\<forall>x\<in>set before. continuing x"
    and "ProcessStatus.error (data r) = Some msg" and "msg \<noteq> []"
  shows "upload e source nm slug username token True =
     Some (Returned (- 1),
       j @ rounds (uploadStatusUrl username (UploadProcessing.id' processing) token) (length before)
         @ GetStatus (uploadStatusUrl username (UploadProcessing.id' processing) token)
         # (if status r = 200 then []
            else [ConsoleError (CouldProcessingStatus (status r) (statusText r))]))"
proof -
  let ?u = "uploadStatusUrl username (UploadProcessing.id' processing) token"
  have "keepPolling (Some (Num 0))" by simp
  from pollLoop_continuing [OF assms(3) this]
  obtain p' where p': "keepPolling p'"
    and eq: "pollLoop (before @- Inr r ## rest) username (UploadProcessing.id' processing) token
          (Some (Num 0)) j
       = pollLoop (Inr r ## rest) username (UploadProcessing.id' processing) token p'
          (j @ rounds ?u (length before))"
    by blast
  show ?thesis
    unfolding upload_polls [OF assms(1)] assms(2) eq
    by (simp add: pollLoop_query [OF p'] assms(4,5) caught_def)
qed

theorem poll_error_stops_witness:
  "upload
     (sampleEnv 200 None 201
        ([Inr (sampleStatus False None (Some (Num (1 / 2))))]
           @- Inr (sampleStatus False (Some ''bad file'') None)
           ## sconst (Inr (sampleStatus True None (Some (Num 1))))))
     ''roads.mbtiles'' ''Roads'' ''roads'' ''ann'' ''tk'' True
   = Some (Returned (- 1),
       sampleJournal @
       [GetStatus (uploadStatusUrl ''ann'' ''job1'' ''tk''), Delay 1000,
        GetStatus (uploadStatusUrl ''ann'' ''job1'' ''tk'')])"
  using poll_error_stops
    [OF sample_reaches_poller,
     where before = "[Inr (sampleStatus False None (Some (Num (1 / 2))))]"
       and r = "sampleStatus False (Some ''bad file'') None"
       and rest = "sconst (Inr (sampleStatus True None (Some (Num 1))))"
       and msg = "''bad file''"]
  by (simp add: sampleEnv_def sampleStatus_def sampleProcessing_def rounds_def)

text \<open>
  C1, as the claim has it, fails on a response whose \<open>error\<close> is the empty string: it is not
  null, yet line 100 tests its truth value, the loop takes its \<open>progress\<close> of one and the
  workflow returns \<open>0\<close>.
\<close>

theorem poll_error_empty_string:
  "ProcessStatus.error (data (sampleStatus False (Some []) (Some (Num 1)))) \<noteq> None
   \<and> upload
       (sampleEnv 200 None 201 (sconst (Inr (sampleStatus False (Some []) (Some (Num 1))))))
       ''roads.mbtiles'' ''Roads'' ''roads'' ''ann'' ''tk'' True
     = Some (Returned 0,
         sampleJournal @ [GetStatus (uploadStatusUrl ''ann'' ''job1'' ''tk''), Delay 1000])"
proof -
  let ?x = "Inr (sampleStatus False (Some []) (Some (Num 1)))"
  let ?u = "uploadStatusUrl ''ann'' ''job1'' ''tk''"
  have "pollLoop (sconst ?x) ''ann'' ''job1'' ''tk'' (Some (Num 0)) sampleJournal
      = pollLoop (sconst ?x) ''ann'' ''job1'' ''tk'' (Some (Num 1))
          (sampleJournal @ [GetStatus ?u, Delay 1000])"
    by (subst pollLoop_unfold) (simp add: readOf_def sampleStatus_def)
  also have "\<dots> = Some (Returned 0, sampleJournal @ [GetStatus ?u, Delay 1000])"
    by (simp add: pollLoop_done)
  finally show ?thesis
    by (simp add: sample_polls sampleStatus_def)
qed


text \<open>
  C3. In a run that has reached the poller, the three responses with progress 0.2, 0.6 and
  1.0 and a null error make the workflow issue exactly three status queries, each followed by
  the delay of 1000 ms, and return \<open>0\<close>, whatever the service would have answered next.
  (The loop only compares a progress with one, so that the rationals stand for the doubles
  nearest to them.) In general, after any number of responses that kept the loop going, a
  response with a null error and a progress of at least one is the last one queried, and the
  workflow returns \<open>0\<close>.
\<close>

theorem poll_until_complete:
  assumes "uploadAndStart e source nm slug username token = Inr (processing, j)"
  shows "(getStatus e = Inr r1 ## Inr r2 ## Inr r3 ## rest
        \<and> status r1 = 200 \<and> ProcessStatus.error (data r1) = None
        \<and> ProcessStatus.progress (data r1) = Some (Num (2 / 10))
        \<and> status r2 = 200 \<and> ProcessStatus.error (data r2) = None
        \<and> ProcessStatus.progress (data r2) = Some (Num (6 / 10))
        \<and> status r3 = 200 \<and> ProcessStatus.error (data r3) = None
        \<and> ProcessStatus.progress (data r3) = Some (Num 1)
      \<longrightarrow> upload e source nm slug username token True =
          Some (Returned 0,
            j @ [GetStatus (uploadStatusUrl username (UploadProcessing.id' processing) token),
                 Delay 1000,
                 GetStatus (uploadStatusUrl username (UploadProcessing.id' processing) token),
                 Delay 1000,
                 GetStatus (uploadStatusUrl username (UploadProcessing.id' processing) token),
                 Delay 1000]))
    \<and> (getStatus e = before @- Inr r ## rest
        \<and> (\<forall>x\<in>set before. continuing x)
        \<and> status r = 200 \<and> ProcessStatus.error (data r) = None
        \<and> ProcessStatus.progress (data r) = Some (Num q) \<and> 1 \<le> q
      \<longrightarrow> upload e source nm slug username token True =
          Some (Returned 0,
            j @ rounds (uploadStatusUrl username (UploadProcessing.id' processing) token)
                  (Suc (length before))))"
proof (intro conjI impI)
  let ?i = "UploadProcessing.id' processing"
  let ?u = "uploadStatusUrl username ?i token"
  have zero: "keepPolling (Some (Num 0))" by simp
  {
    assume a: "getStatus e = Inr r1 ## Inr r2 ## Inr r3 ## rest
        \<and> status r1 = 200 \<and> ProcessStatus.error (data r1) = None
        \<and> ProcessStatus.progress (data r1) = Some (Num (2 / 10))
        \<and> status r2 = 200 \<and> ProcessStatus.error (data r2) = None
        \<and> ProcessStatus.progress (data r2) = Some (Num (6 / 10))
        \<and> status r3 = 200 \<and> ProcessStatus.error (data r3) = None
        \<and> ProcessStatus.progress (data r3) = Some (Num 1)"
    have "pollLoop (Inr r1 ## Inr r2 ## Inr r3 ## rest) username ?i token (Some (Num 0)) j
        = pollLoop (Inr r2 ## Inr r3 ## rest) username ?i token (Some (Num (2 / 10)))
            (j @ [GetStatus ?u, Delay 1000])"
      using a by (simp add: pollLoop_query [OF zero])
    also have "\<dots> = pollLoop (Inr r3 ## rest) username ?i token (Some (Num (6 / 10)))
            (j @ [GetStatus ?u, Delay 1000, GetStatus ?u, Delay 1000])"
      using a by (simp add: pollLoop_query)
    also have "\<dots> = pollLoop rest username ?i token (Some (Num 1))
            (j @ [GetStatus ?u, Delay 1000, GetStatus ?u, Delay 1000, GetStatus ?u, Delay 1000])"
      using a by (simp add: pollLoop_query)
    also have "\<dots> = Some (Returned 0,
            j @ [GetStatus ?u, Delay 1000, GetStatus ?u, Delay 1000, GetStatus ?u, Delay 1000])"
      by (simp add: pollLoop_done)
    finally show "upload e source nm slug username token True =
        Some (Returned 0,
          j @ [GetStatus ?u, Delay 1000, GetStatus ?u, Delay 1000, GetStatus ?u, Delay 1000])"
      using a by (simp add: upload_polls [OF assms])
  }
  {
    assume b: "getStatus e = before @- Inr r ## rest
        \<and> (\<forall>x\<in>set before. continuing x)
        \<and> status r = 200 \<and> ProcessStatus.error (data r) = None
        \<and> ProcessStatus.progress (data r) = Some (Num q) \<and> 1 \<le> q"
    then have "\<forall>x\<in>set before. continuing x" by blast
    from pollLoop_continuing [OF this zero]
    obtain p' where p': "keepPolling p'"
      and eq: "pollLoop (before @- Inr r ## rest) username ?i token (Some (Num 0)) j
         = pollLoop (Inr r ## rest) username ?i token p' (j @ rounds ?u (length before))"
      by blast
    have "pollLoop (Inr r ## rest) username ?i token p' (j @ rounds ?u (length before))
        = pollLoop rest username ?i token (Some (Num q))
            (j @ rounds ?u (length before) @ [GetStatus ?u, Delay 1000])"
      using b by (simp add: pollLoop_query [OF p'])
    also have "\<dots> = Some (Returned 0, j @ rounds ?u (length before) @ [GetStatus ?u, Delay 1000])"
      using b by (simp add: pollLoop_done)
    also have "rounds ?u (length before) @ [GetStatus ?u, Delay 1000]
        = rounds ?u (Suc (length before))"
      by (rule rounds_snoc)
    finally show "upload e source nm slug username token True =
        Some (Returned 0, j @ rounds ?u (Suc (length before)))"
      using b eq by (simp add: upload_polls [OF assms])
  }
qed

theorem poll_until_complete_witness:
  "upload
     (sampleEnv 200 None 201
        (Inr (sampleStatus False None (Some (Num (2 / 10))))
           ## Inr (sampleStatus False None (Some (Num (6 / 10))))
           ## Inr (sampleStatus True None (Some (Num 1)))
           ## sconst (Inr (sampleStatus True None (Some (Num 1))))))
     ''roads.mbtiles'' ''Roads'' ''roads'' ''ann'' ''tk'' True
   = Some (Returned 0,
       sampleJournal @
       [GetStatus (uploadStatusUrl ''ann'' ''job1'' ''tk''), Delay 1000,
        GetStatus (uploadStatusUrl ''ann'' ''job1'' ''tk''), Delay 1000,
        GetStatus (uploadStatusUrl ''ann'' ''job1'' ''tk''), Delay 1000])"
  using poll_until_complete
    [OF sample_reaches_poller,
     where ?r1.0 = "sampleStatus False None (Some (Num (2 / 10)))"
       and ?r2.0 = "sampleStatus False None (Some (Num (6 / 10)))"
       and ?r3.0 = "sampleStatus True None (Some (Num 1))"
       and rest = "sconst (Inr (sampleStatus True None (Some (Num 1))))"
       and before = "[Inr (sampleStatus False None (Some (Num (2 / 10)))),
                      Inr (sampleStatus False None (Some (Num (6 / 10))))]"
       and r = "sampleStatus True None (Some (Num 1))"
       and q = 1]
  by (simp add: sampleEnv_def sampleStatus_def sampleProcessing_def rounds_def)

text \<open>
  C9. In a run that has reached the poller, a response with a null error and no
  \<open>progress\<close> field, coming after any number of responses that kept the loop going (each
  with a progress below one), ends the loop: the workflow returns \<open>0\<close> after the delay that
  follows that query, and no response with a progress of at least one was received.
\<close>

theorem poll_progress_absent:
  assumes "uploadAndStart e source nm slug username token = Inr (processing, j)"
    and "getStatus e = before @- Inr r ## rest"
    and "\<forall>x\<in>set before. continuing x"
    and "status r = 200"
    and "ProcessStatus.error (data r) = None"
    and "ProcessStatus.progress (data r) = None"
  shows "upload e source nm slug username token True =
     Some (Returned 0,
       j @ rounds (uploadStatusUrl username (UploadProcessing.id' processing) token)
             (Suc (length before)))"
proof -
  let ?i = "UploadProcessing.id' processing"
  let ?u = "uploadStatusUrl username ?i token"
  have "keepPolling (Some (Num 0))" by simp
  from pollLoop_continuing [OF assms(3) this]
  obtain p' where p': "keepPolling p'"
    and eq: "pollLoop (before @- Inr r ## rest) username ?i token (Some (Num 0)) j
       = pollLoop (Inr r ## rest) username ?i token p' (j @ rounds ?u (length before))"
    by blast
  have "pollLoop (Inr r ## rest) username ?i token p' (j @ rounds ?u (length before))
      = pollLoop rest username ?i token None
          (j @ rounds ?u (length before) @ [GetStatus ?u, Delay 1000])"
    using assms(4-6) by (simp add: pollLoop_query [OF p'])
  also have "\<dots> = Some (Returned 0, j @ rounds ?u (length before) @ [GetStatus ?u, Delay 1000])"
    by (simp add: pollLoop_done)
  finally show ?thesis
    unfolding upload_polls [OF assms(1)] assms(2) eq by (simp add: rounds_snoc)
qed

theorem poll_progress_absent_witness:
  "upload
     (sampleEnv 200 None 201
        ([Inr (sampleStatus False None (Some (Num (1 / 2))))]
           @- Inr (sampleStatus False None None)
           ## sconst (Inr (sampleStatus False None (Some (Num (1 / 2)))))))
     ''roads.mbtiles'' ''Roads'' ''roads'' ''ann'' ''tk'' True
   = Some (Returned 0,
       sampleJournal @
       [GetStatus (uploadStatusUrl ''ann'' ''job1'' ''tk''), Delay 1000,
        GetStatus (uploadStatusUrl ''ann'' ''job1'' ''tk''), Delay 1000])"
  using poll_progress_absent
    [OF sample_reaches_poller,
     where before = "[Inr (sampleStatus False None (Some (Num (1 / 2))))]"
       and r = "sampleStatus False None None"
       and rest = "sconst (Inr (sampleStatus False None (Some (Num (1 / 2)))))"]
  by (simp add: sampleEnv_def sampleStatus_def sampleProcessing_def rounds_def)

section \<open>Failures of the stages\<close>

text \<open>
  C4. Whenever the credentials request is answered by anything but a response with status
  200 (a response with another status, which line 151 turns into an exception, or a rejection
  of the request by axios), \<open>upload\<close> returns \<open>-1\<close> and its journal has no \<open>putObject\<close>
  call; when the file could be read, the journal is the read, the request and the report of
  the exception.
\<close>

theorem credentials_failure:
  assumes "\<forall>resp. postCredentials e (credentialsUrl username token) = Inr resp
      \<longrightarrow> status resp \<noteq> 200"
  shows "\<exists>journal.
      upload e source nm slug username token w = Some (Returned (- 1), journal)
    \<and> filter isPutObject journal = []
    \<and> (\<forall>file. readFileSync e source = Inr file \<longrightarrow>
          (\<exists>ex. journal = [ReadFile source, PostCredentials (credentialsUrl username token),
                            ConsoleError ex]))"
proof (cases "readFileSync e source")
  case (Inl ex)
  then show ?thesis
    by (simp add: upload_def uploadAndStart_def caught_def)
next
  case rd: (Inr buf)
  show ?thesis
  proof (cases "postCredentials e (credentialsUrl username token)")
    case (Inl ex)
    with rd show ?thesis
      by (simp add: upload_def uploadAndStart_def fetchCredentials_def caught_def)
  next
    case (Inr resp)
    with assms have "status resp \<noteq> 200" by simp
    with rd Inr show ?thesis
      by (simp add: upload_def uploadAndStart_def fetchCredentials_def caught_def)
  qed
qed

theorem credentials_failure_witness:
  "postCredentials (sampleEnv 204 None 201 (sconst (Inl (External ''unused''))))
       (credentialsUrl ''ann'' ''tk'')
     = Inr \<lparr>status = 204, statusText = ''cs'', data = sampleCredentials\<rparr>
   \<and> (\<exists>journal.
        upload (sampleEnv 204 None 201 (sconst (Inl (External ''unused''))))
          ''roads.mbtiles'' ''Roads'' ''roads'' ''ann'' ''tk'' True
          = Some (Returned (- 1), journal)
      \<and> filter isPutObject journal = []
      \<and> journal = [ReadFile ''roads.mbtiles'', PostCredentials (credentialsUrl ''ann'' ''tk''),
                       ConsoleError (CouldNotFetchCredentials 204 ''cs'')])"
proof -
  let ?e = "sampleEnv 204 None 201 (sconst (Inl (External ''unused'')))"
  have c: "postCredentials ?e (credentialsUrl ''ann'' ''tk'')
      = Inr \<lparr>status = 204, statusText = ''cs'', data = sampleCredentials\<rparr>"
    by (simp add: sampleEnv_def)
  then have h: "\<forall>resp. postCredentials ?e (credentialsUrl ''ann'' ''tk'') = Inr resp
        \<longrightarrow> status resp \<noteq> 200"
    by simp
  have v: "upload ?e ''roads.mbtiles'' ''Roads'' ''roads'' ''ann'' ''tk'' True
      = Some (Returned (- 1),
          [ReadFile ''roads.mbtiles'', PostCredentials (credentialsUrl ''ann'' ''tk''),
           ConsoleError (CouldNotFetchCredentials 204 ''cs'')])"
    by (simp add: upload_def uploadAndStart_def fetchCredentials_def caught_def sampleEnv_def)
  from credentials_failure [OF h, of "''roads.mbtiles''" "''Roads''" "''roads''" True]
  have "\<exists>journal.
        upload ?e ''roads.mbtiles'' ''Roads'' ''roads'' ''ann'' ''tk'' True
          = Some (Returned (- 1), journal)
      \<and> filter isPutObject journal = []
      \<and> journal = [ReadFile ''roads.mbtiles'', PostCredentials (credentialsUrl ''ann'' ''tk''),
                       ConsoleError (CouldNotFetchCredentials 204 ''cs'')]"
    unfolding v by simp
  with c show ?thesis ..
qed

text \<open>
  C5. Whenever the start request has been issued and is answered by anything but a response
  with status 201 (a response with another status, which line 180 turns into an exception,
  or a rejection of the request by axios), \<open>upload\<close> returns \<open>-1\<close> and its journal has no
  status query, whether or not the caller asked to wait.
\<close>

theorem start_failure:
  assumes "PostUpload u body \<in> set (journalOf (uploadAndStart e source nm slug username token))"
    and "\<forall>resp. postUpload e u body = Inr resp \<longrightarrow> status resp \<noteq> 201"
  shows "\<exists>journal.
      upload e source nm slug username token w = Some (Returned (- 1), journal)
    \<and> PostUpload u body \<in> set journal
    \<and> filter isGetStatus journal = []"
proof -
  from PostUpload_issued [OF assms(1)] obtain buf cr where
    rd: "readFileSync e source = Inr buf"
    and cr: "postCredentials e (credentialsUrl username token) = Inr cr" "status cr = 200"
    and put: "putObject e
         \<lparr>accessKeyId = Credentials.accessKeyId (data cr),
          secretAccessKey = Credentials.secretAccessKey (data cr),
          region = ''us-east-1'', sessionToken = Credentials.sessionToken (data cr)\<rparr>
         \<lparr>Body = buf, Bucket = bucket (data cr), Key = key (data cr)\<rparr> = None"
    and u: "u = uploadUrl username token"
    and body: "body = \<lparr>url = fileUrl (bucket (data cr)) (key (data cr)),
               tileset = username @ ''.'' @ slug, name = nm\<rparr>"
    by blast
  show ?thesis
  proof (cases "postUpload e u body")
    case (Inl ex)
    with rd cr put u body show ?thesis
      by (simp add: upload_def uploadAndStart_def fetchCredentials_def uploadToS3_def
          startUpload_def caught_def)
  next
    case (Inr resp)
    with assms(2) have "status resp \<noteq> 201" by simp
    with Inr rd cr put u body show ?thesis
      by (simp add: upload_def uploadAndStart_def fetchCredentials_def uploadToS3_def
          startUpload_def caught_def)
  qed
qed

lemma sample_start_refused:
  "uploadAndStart (sampleEnv 200 None 200 replies) ''roads.mbtiles'' ''Roads'' ''roads'' ''ann'' ''tk''
     = Inl (Returned (- 1),
         sampleJournal @ [ConsoleError (CouldNotStartProcessing 200 ''us'')])"
  by (simp add: uploadAndStart_def sampleEnv_def fetchCredentials_def uploadToS3_def
      startUpload_def sampleCredentials_def sampleJournal_def sampleUpload_def fileUrl_def
      caught_def Let_def)

theorem start_failure_witness:
  "PostUpload (uploadUrl ''ann'' ''tk'') sampleUpload
     \<in> set (journalOf (uploadAndStart (sampleEnv 200 None 200 (sconst (Inl (External ''unused''))))
          ''roads.mbtiles'' ''Roads'' ''roads'' ''ann'' ''tk''))
   \<and> postUpload (sampleEnv 200 None 200 (sconst (Inl (External ''unused''))))
         (uploadUrl ''ann'' ''tk'') sampleUpload
       = Inr \<lparr>status = 200, statusText = ''us'', data = sampleProcessing\<rparr>
   \<and> (\<exists>journal.
        upload (sampleEnv 200 None 200 (sconst (Inl (External ''unused''))))
          ''roads.mbtiles'' ''Roads'' ''roads'' ''ann'' ''tk'' True
          = Some (Returned (- 1), journal)
      \<and> PostUpload (uploadUrl ''ann'' ''tk'') sampleUpload \<in> set journal
      \<and> filter isGetStatus journal = [])"
proof -
  let ?e = "sampleEnv 200 None 200 (sconst (Inl (External ''unused'')))"
  have a: "PostUpload (uploadUrl ''ann'' ''tk'') sampleUpload
     \<in> set (journalOf (uploadAndStart ?e ''roads.mbtiles'' ''Roads'' ''roads'' ''ann'' ''tk''))"
    by (simp add: sample_start_refused journalOf_def sampleJournal_def)
  have b: "\<forall>resp. postUpload ?e (uploadUrl ''ann'' ''tk'') sampleUpload = Inr resp
      \<longrightarrow> status resp \<noteq> 201"
    by (auto simp: sampleEnv_def)
  have c: "postUpload ?e (uploadUrl ''ann'' ''tk'') sampleUpload
      = Inr \<lparr>status = 200, statusText = ''us'', data = sampleProcessing\<rparr>"
    by (simp add: sampleEnv_def)
  from start_failure [OF a b, of True] a c show ?thesis
    by (intro conjI)
qed

text \<open>
  C2, on the code. The S3 client answers the storage write with an error. The callback of
  lines 138-141 throws it, but the promise that line 78 awaits was built from \<open>resolve\<close>
  alone: nothing rejects it, the \<open>catch\<close> of line 118 never runs, and \<open>upload\<close> does not
  return \<open>-1\<close>. The start request is not issued.
\<close>

theorem storage_error_escapes:
  "upload
     (sampleEnv 200 (Some (External ''AccessDenied'')) 201 (sconst (Inl (External ''unused''))))
     ''roads.mbtiles'' ''Roads'' ''roads'' ''ann'' ''tk'' True
   = Some (Uncaught (External ''AccessDenied''),
       [ReadFile ''roads.mbtiles'',
        PostCredentials (credentialsUrl ''ann'' ''tk''),
        PutObject
          \<lparr>accessKeyId = ''AKIA'', secretAccessKey = ''secret'', region = ''us-east-1'',
           sessionToken = ''session''\<rparr>
          \<lparr>Body = ''tiles'', Bucket = ''tilestream-tilesets-production'',
           Key = ''_pending/roads''\<rparr>])"
  by (simp add: upload_def uploadAndStart_def sampleEnv_def fetchCredentials_def uploadToS3_def
      sampleCredentials_def Let_def)

section \<open>Order of the stages and contents of the start request\<close>

text \<open>
  C6. In every run, the requests of the three stages that lines 68-92 issue are, in this
  order, the credentials request, the storage write and the start request, or a beginning of
  that sequence; the start request is only there together with a storage write that the
  storage layer answered without an error; and the rest of a run that ends (the polling)
  adds no request of these stages.
\<close>

theorem stages_in_order:
  "stageOrder (filter isStage (journalOf (uploadAndStart e source nm slug username token)))
   \<and> (PostUpload u body \<in> set (journalOf (uploadAndStart e source nm slug username token))
        \<longrightarrow> (\<exists>opts params.
              PutObject opts params
                \<in> set (journalOf (uploadAndStart e source nm slug username token))
            \<and> putObject e opts params = None))
   \<and> (upload e source nm slug username token w = Some (out, journal)
        \<longrightarrow> filter isStage journal
            = filter isStage (journalOf (uploadAndStart e source nm slug username token)))"
proof (intro conjI impI)
  show "stageOrder (filter isStage (journalOf (uploadAndStart e source nm slug username token)))"
    by (simp add: uploadAndStart_def journalOf_def fetchCredentials_def uploadToS3_def
        startUpload_def caught_def Let_def split: sum.splits option.splits)
next
  assume "PostUpload u body \<in> set (journalOf (uploadAndStart e source nm slug username token))"
  from PostUpload_issued [OF this] obtain buf cr where
    rd: "readFileSync e source = Inr buf"
    and cr: "postCredentials e (credentialsUrl username token) = Inr cr" "status cr = 200"
    and put: "putObject e
         \<lparr>accessKeyId = Credentials.accessKeyId (data cr),
          secretAccessKey = Credentials.secretAccessKey (data cr),
          region = ''us-east-1'', sessionToken = Credentials.sessionToken (data cr)\<rparr>
         \<lparr>Body = buf, Bucket = bucket (data cr), Key = key (data cr)\<rparr> = None"
    by blast
  have "PutObject
         \<lparr>accessKeyId = Credentials.accessKeyId (data cr),
          secretAccessKey = Credentials.secretAccessKey (data cr),
          region = ''us-east-1'', sessionToken = Credentials.sessionToken (data cr)\<rparr>
         \<lparr>Body = buf, Bucket = bucket (data cr), Key = key (data cr)\<rparr>
      \<in> set (journalOf (uploadAndStart e source nm slug username token))"
    using rd cr put
    by (simp add: uploadAndStart_def journalOf_def fetchCredentials_def uploadToS3_def
        startUpload_def caught_def Let_def split: sum.splits)
  with put show "\<exists>opts params.
      PutObject opts params \<in> set (journalOf (uploadAndStart e source nm slug username token))
    \<and> putObject e opts params = None"
    by blast
next
  assume "upload e source nm slug username token w = Some (out, journal)"
  then show "filter isStage journal
      = filter isStage (journalOf (uploadAndStart e source nm slug username token))"
    by (rule upload_stages)
qed

theorem stages_in_order_witness:
  "PostUpload (uploadUrl ''ann'' ''tk'') sampleUpload
     \<in> set (journalOf (uploadAndStart (sampleEnv 200 None 201 (sconst (Inl (External ''unused''))))
          ''roads.mbtiles'' ''Roads'' ''roads'' ''ann'' ''tk''))
   \<and> upload (sampleEnv 200 None 201 (sconst (Inl (External ''unused''))))
         ''roads.mbtiles'' ''Roads'' ''roads'' ''ann'' ''tk'' False
       = Some (Returned 0, sampleJournal)
   \<and> stageOrder (filter isStage sampleJournal)
   \<and> (\<exists>opts params.
          PutObject opts params \<in> set sampleJournal
        \<and> putObject (sampleEnv 200 None 201 (sconst (Inl (External ''unused'')))) opts params
            = None)"
proof -
  let ?e = "sampleEnv 200 None 201 (sconst (Inl (External ''unused'')))"
  have j: "journalOf (uploadAndStart ?e ''roads.mbtiles'' ''Roads'' ''roads'' ''ann'' ''tk'')
      = sampleJournal"
    by (simp add: sample_reaches_poller journalOf_def)
  have a: "PostUpload (uploadUrl ''ann'' ''tk'') sampleUpload \<in> set sampleJournal"
    by (simp add: sampleJournal_def)
  have b: "upload ?e ''roads.mbtiles'' ''Roads'' ''roads'' ''ann'' ''tk'' False
      = Some (Returned 0, sampleJournal)"
    by (simp add: upload_def sample_reaches_poller)
  from stages_in_order
    [of ?e "''roads.mbtiles''" "''Roads''" "''roads''" "''ann''" "''tk''"
      "uploadUrl ''ann'' ''tk''" sampleUpload False "Returned 0" sampleJournal]
  show ?thesis
    unfolding j using a b by simp
qed

text \<open>
  C7. \<open>startUpload\<close> posts a body whose tileset identifier is the user name, a dot and the
  slug, concatenated as they are; and every start request in the journal of a run of
  \<open>upload\<close> carries the identifier made of the user name and the slug that \<open>upload\<close> was
  given.
\<close>

theorem tileset_identifier:
  "(\<exists>body'. fst (startUpload e username slug nm b k token)
        = [PostUpload (uploadUrl username token) body']
      \<and> Upload.tileset body' = username @ ''.'' @ slug)
   \<and> (PostUpload u body \<in> set (journalOf (uploadAndStart e source nm slug username token))
        \<longrightarrow> Upload.tileset body = username @ ''.'' @ slug)
   \<and> (upload e source nm slug username token w = Some (out, journal)
        \<and> PostUpload u body \<in> set journal
        \<longrightarrow> Upload.tileset body = username @ ''.'' @ slug)"
proof (intro conjI impI)
  show "\<exists>body'. fst (startUpload e username slug nm b k token)
        = [PostUpload (uploadUrl username token) body']
      \<and> Upload.tileset body' = username @ ''.'' @ slug"
    by (simp add: startUpload_def Let_def)
next
  assume "PostUpload u body \<in> set (journalOf (uploadAndStart e source nm slug username token))"
  from PostUpload_issued [OF this]
  show "Upload.tileset body = username @ ''.'' @ slug"
    by auto
next
  assume "upload e source nm slug username token w = Some (out, journal)
        \<and> PostUpload u body \<in> set journal"
  then have "PostUpload u body \<in> set (journalOf (uploadAndStart e source nm slug username token))"
    by (blast intro: PostUpload_in_upload)
  from PostUpload_issued [OF this]
  show "Upload.tileset body = username @ ''.'' @ slug"
    by auto
qed

theorem tileset_identifier_witness:
  "PostUpload (uploadUrl ''ann'' ''tk'') sampleUpload
     \<in> set (journalOf (uploadAndStart (sampleEnv 200 None 201 (sconst (Inl (External ''unused''))))
          ''roads.mbtiles'' ''Roads'' ''roads'' ''ann'' ''tk''))
   \<and> upload (sampleEnv 200 None 201 (sconst (Inl (External ''unused''))))
         ''roads.mbtiles'' ''Roads'' ''roads'' ''ann'' ''tk'' False
       = Some (Returned 0, sampleJournal)
   \<and> PostUpload (uploadUrl ''ann'' ''tk'') sampleUpload \<in> set sampleJournal
   \<and> Upload.tileset sampleUpload = ''ann.roads''"
proof -
  let ?e = "sampleEnv 200 None 201 (sconst (Inl (External ''unused'')))"
  have j: "journalOf (uploadAndStart ?e ''roads.mbtiles'' ''Roads'' ''roads'' ''ann'' ''tk'')
      = sampleJournal"
    by (simp add: sample_reaches_poller journalOf_def)
  have a: "PostUpload (uploadUrl ''ann'' ''tk'') sampleUpload \<in> set sampleJournal"
    by (simp add: sampleJournal_def)
  have b: "upload ?e ''roads.mbtiles'' ''Roads'' ''roads'' ''ann'' ''tk'' False
      = Some (Returned 0, sampleJournal)"
    by (simp add: upload_def sample_reaches_poller)
  from tileset_identifier
    [of ?e "''ann''" "''roads''" "''Roads''" "''b''" "''k''" "''tk''"
      "uploadUrl ''ann'' ''tk''" sampleUpload "''roads.mbtiles''" False "Returned 0"
      sampleJournal]
  show ?thesis
    unfolding j using a b by simp
qed

text \<open>
  C8. \<open>startUpload\<close> posts a body whose object URL is \<open>http://\<close>, the bucket,
  \<open>.s3.amazonaws.com/\<close> and the key; and when the credentials request was answered by
  \<open>resp\<close>, every start request in the journal of a run of \<open>upload\<close> carries the URL made of
  the bucket and the key of \<open>resp\<close>.
\<close>

theorem object_url:
  "(\<exists>body'. fst (startUpload e username slug nm b k token)
        = [PostUpload (uploadUrl username token) body']
      \<and> Upload.url body' = ''http://'' @ b @ ''.s3.amazonaws.com/'' @ k)
   \<and> (postCredentials e (credentialsUrl username token) = Inr resp
        \<and> PostUpload u body \<in> set (journalOf (uploadAndStart e source nm slug username token))
        \<longrightarrow> Upload.url body
            = ''http://'' @ bucket (data resp) @ ''.s3.amazonaws.com/'' @ key (data resp))
   \<and> (postCredentials e (credentialsUrl username token) = Inr resp
        \<and> upload e source nm slug username token w = Some (out, journal)
        \<and> PostUpload u body \<in> set journal
        \<longrightarrow> Upload.url body
            = ''http://'' @ bucket (data resp) @ ''.s3.amazonaws.com/'' @ key (data resp))"
proof (intro conjI impI)
  show "\<exists>body'. fst (startUpload e username slug nm b k token)
        = [PostUpload (uploadUrl username token) body']
      \<and> Upload.url body' = ''http://'' @ b @ ''.s3.amazonaws.com/'' @ k"
    by (simp add: startUpload_def fileUrl_def Let_def)
next
  assume a: "postCredentials e (credentialsUrl username token) = Inr resp
    \<and> PostUpload u body \<in> set (journalOf (uploadAndStart e source nm slug username token))"
  then have "PostUpload u body \<in> set (journalOf (uploadAndStart e source nm slug username token))"
    by simp
  from PostUpload_issued [OF this] a
  show "Upload.url body
      = ''http://'' @ bucket (data resp) @ ''.s3.amazonaws.com/'' @ key (data resp)"
    by (auto simp: fileUrl_def)
next
  assume a: "postCredentials e (credentialsUrl username token) = Inr resp
    \<and> upload e source nm slug username token w = Some (out, journal)
    \<and> PostUpload u body \<in> set journal"
  then have "PostUpload u body \<in> set (journalOf (uploadAndStart e source nm slug username token))"
    by (blast intro: PostUpload_in_upload)
  from PostUpload_issued [OF this] a
  show "Upload.url body
      = ''http://'' @ bucket (data resp) @ ''.s3.amazonaws.com/'' @ key (data resp)"
    by (auto simp: fileUrl_def)
qed

theorem object_url_witness:
  "postCredentials (sampleEnv 200 None 201 (sconst (Inl (External ''unused''))))
       (credentialsUrl ''ann'' ''tk'')
     = Inr \<lparr>status = 200, statusText = ''cs'', data = sampleCredentials\<rparr>
   \<and> upload (sampleEnv 200 None 201 (sconst (Inl (External ''unused''))))
         ''roads.mbtiles'' ''Roads'' ''roads'' ''ann'' ''tk'' False
       = Some (Returned 0, sampleJournal)
   \<and> PostUpload (uploadUrl ''ann'' ''tk'') sampleUpload \<in> set sampleJournal
   \<and> Upload.url sampleUpload
       = ''http://tilestream-tilesets-production.s3.amazonaws.com/_pending/roads''"
proof -
  let ?e = "sampleEnv 200 None 201 (sconst (Inl (External ''unused'')))"
  have j: "journalOf (uploadAndStart ?e ''roads.mbtiles'' ''Roads'' ''roads'' ''ann'' ''tk'')
      = sampleJournal"
    by (simp add: sample_reaches_poller journalOf_def)
  have a: "PostUpload (uploadUrl ''ann'' ''tk'') sampleUpload \<in> set sampleJournal"
    by (simp add: sampleJournal_def)
  have b: "upload ?e ''roads.mbtiles'' ''Roads'' ''roads'' ''ann'' ''tk'' False
      = Some (Returned 0, sampleJournal)"
    by (simp add: upload_def sample_reaches_poller)
  have c: "postCredentials ?e (credentialsUrl ''ann'' ''tk'')
      = Inr \<lparr>status = 200, statusText = ''cs'', data = sampleCredentials\<rparr>"
    by (simp add: sampleEnv_def)
  from object_url
    [of ?e "''ann''" "''roads''" "''Roads''" "''b''" "''k''" "''tk''"
      "\<lparr>status = 200, statusText = ''cs'', data = sampleCredentials\<rparr>"
      "uploadUrl ''ann'' ''tk''" sampleUpload "''roads.mbtiles''" False "Returned 0"
      sampleJournal]
  show ?thesis
    unfolding j using a b c by (simp add: sampleCredentials_def)
qed

section \<open>What the poller reads\<close>

text \<open>
  C10. Two services that differ only in the status replies, and whose status replies differ
  only in their \<open>complete\<close> fields, give the same run of \<open>upload\<close>: the same outcome and the
  same journal, hence the same number of status queries, or no end in both.
\<close>

theorem complete_not_read:
  assumes "smap forgetComplete s = smap forgetComplete s'"
  shows "upload (e\<lparr>getStatus := s\<rparr>) source nm slug username token w
    = upload (e\<lparr>getStatus := s'\<rparr>) source nm slug username token w"
  by (simp add: upload_def uploadAndStart_getStatus pollLoop_forget [OF assms]
      split: sum.splits prod.splits)

theorem complete_not_read_witness:
  "smap forgetComplete
       (Inr (sampleStatus True None (Some (Num (1 / 2))))
          ## sconst (Inr (sampleStatus False None (Some (Num 1)))))
     = smap forgetComplete
         (Inr (sampleStatus False None (Some (Num (1 / 2))))
            ## sconst (Inr (sampleStatus True None (Some (Num 1)))))
   \<and> upload
         (sampleEnv 200 None 201
            (Inr (sampleStatus True None (Some (Num (1 / 2))))
               ## sconst (Inr (sampleStatus False None (Some (Num 1))))))
         ''roads.mbtiles'' ''Roads'' ''roads'' ''ann'' ''tk'' True
     = upload
         (sampleEnv 200 None 201
            (Inr (sampleStatus False None (Some (Num (1 / 2))))
               ## sconst (Inr (sampleStatus True None (Some (Num 1))))))
         ''roads.mbtiles'' ''Roads'' ''roads'' ''ann'' ''tk'' True"
proof -
  let ?s = "Inr (sampleStatus True None (Some (Num (1 / 2))))
          ## sconst (Inr (sampleStatus False None (Some (Num 1))))"
  let ?s' = "Inr (sampleStatus False None (Some (Num (1 / 2))))
          ## sconst (Inr (sampleStatus True None (Some (Num 1))))"
  have h: "smap forgetComplete ?s = smap forgetComplete ?s'"
    by (simp add: smap_sconst sampleStatus_def)
  have "\<And>x y. (sampleEnv 200 None 201 x)\<lparr>getStatus := y\<rparr> = sampleEnv 200 None 201 y"
    by (simp add: sampleEnv_def)
  with complete_not_read
    [OF h, of "sampleEnv 200 None 201 ?s" "''roads.mbtiles''" "''Roads''" "''roads''"
      "''ann''" "''tk''" True]
  have "upload (sampleEnv 200 None 201 ?s) ''roads.mbtiles'' ''Roads'' ''roads'' ''ann'' ''tk'' True
      = upload (sampleEnv 200 None 201 ?s') ''roads.mbtiles'' ''Roads'' ''roads'' ''ann'' ''tk'' True"
    by simp
  with h show ?thesis ..
qed

end
